theory Spec2Isabelle
  imports Complex_Main
begin

section \<open>One-file REINFORCE: data model\<close>

text \<open>
  The program is \<^verbatim>\<open>src/experimental/reinforce/main.py\<close>. Exceptions are values of
  \<open>error + 'a\<close>, \<open>Inl\<close> carrying the error. The scalar rewards and returns are exact
  reals; the elements of arrays are single-precision values, with their infinities and
  NaN.
\<close>

datatype error = AssertionError | IndexError | InvalidArgumentError | ValueError

subsection \<open>Single-precision values\<close>

text \<open>
  The arrays of the program are \<^verbatim>\<open>float32\<close> (the environment is wrapped in
  \<^verbatim>\<open>ConvertTo32Bit\<close>, the placeholders are \<^verbatim>\<open>tf.float32\<close>). A value is a finite
  number, an infinity or NaN.
\<close>

datatype float32 = Finite real | PosInf | NegInf | NaN

text \<open>
  The largest finite value, and the value an exact result becomes: at or beyond
  \<open>2 ^ 128 - 2 ^ 103\<close> in magnitude it overflows to an infinity, between the largest
  finite value and that bound it is the largest finite value. The rounding of a
  result in range to 24 significant bits is not modelled: such a result is kept as it
  is.
\<close>

definition float32_max :: real where
  "float32_max = (2 - 1 / 2 ^ 23) * 2 ^ 127"

definition to_float32 :: "real \<Rightarrow> float32" where
  "to_float32 x =
     (if 2 ^ 128 - 2 ^ 103 \<le> x then PosInf
      else if x \<le> - (2 ^ 128 - 2 ^ 103) then NegInf
      else if float32_max < x then Finite float32_max
      else if x < - float32_max then Finite (- float32_max)
      else Finite x)"

text \<open>
  Addition and multiplication: NaN propagates, opposite infinities add to NaN, an
  infinity times zero is NaN. Signed zeros are not distinguished.
\<close>

fun fadd :: "float32 \<Rightarrow> float32 \<Rightarrow> float32" where
  "fadd NaN y = NaN"
| "fadd x NaN = NaN"
| "fadd (Finite a) (Finite b) = to_float32 (a + b)"
| "fadd PosInf NegInf = NaN"
| "fadd NegInf PosInf = NaN"
| "fadd PosInf y = PosInf"
| "fadd NegInf y = NegInf"
| "fadd x PosInf = PosInf"
| "fadd x NegInf = NegInf"

fun fmul :: "float32 \<Rightarrow> float32 \<Rightarrow> float32" where
  "fmul NaN y = NaN"
| "fmul x NaN = NaN"
| "fmul (Finite a) (Finite b) = to_float32 (a * b)"
| "fmul (Finite a) PosInf = (if a = 0 then NaN else if 0 < a then PosInf else NegInf)"
| "fmul (Finite a) NegInf = (if a = 0 then NaN else if 0 < a then NegInf else PosInf)"
| "fmul PosInf (Finite b) = (if b = 0 then NaN else if 0 < b then PosInf else NegInf)"
| "fmul NegInf (Finite b) = (if b = 0 then NaN else if 0 < b then NegInf else PosInf)"
| "fmul PosInf PosInf = PosInf"
| "fmul PosInf NegInf = NegInf"
| "fmul NegInf PosInf = NegInf"
| "fmul NegInf NegInf = PosInf"

text \<open>
  \<^verbatim>\<open>tf.minimum\<close> and \<^verbatim>\<open>tf.maximum\<close> on two values: NaN propagates.
\<close>

fun fminimum :: "float32 \<Rightarrow> float32 \<Rightarrow> float32" where
  "fminimum NaN y = NaN"
| "fminimum x NaN = NaN"
| "fminimum NegInf y = NegInf"
| "fminimum x NegInf = NegInf"
| "fminimum PosInf y = y"
| "fminimum x PosInf = x"
| "fminimum (Finite a) (Finite b) = Finite (min a b)"

fun fmaximum :: "float32 \<Rightarrow> float32 \<Rightarrow> float32" where
  "fmaximum NaN y = NaN"
| "fmaximum x NaN = NaN"
| "fmaximum PosInf y = PosInf"
| "fmaximum x PosInf = PosInf"
| "fmaximum NegInf y = y"
| "fmaximum x NegInf = x"
| "fmaximum (Finite a) (Finite b) = Finite (max a b)"

text \<open>The sum of a list of values, accumulated from zero in the order of the list.\<close>

definition fsum :: "float32 list \<Rightarrow> float32" where
  "fsum xs = foldl fadd (Finite 0) xs"

subsection \<open>Arrays, trajectories and the configuration\<close>

text \<open>
  A numpy array: its \<open>shape\<close> tuple and its elements in row-major order.
\<close>

record ndarray =
  shape :: "nat list"
  data :: "float32 list"

text \<open>\<^verbatim>\<open>a[np.newaxis, ...]\<close>: a new leading axis of length one, same elements.\<close>

definition newaxis :: "ndarray \<Rightarrow> ndarray" where
  "newaxis a = a\<lparr>shape := 1 # shape a\<rparr>"

text \<open>
  \<^verbatim>\<open>a[0]\<close>: the first slice along the leading axis; IndexError on a zero-dimensional
  array and on an empty leading axis.
\<close>

definition getitem0 :: "ndarray \<Rightarrow> error + ndarray" where
  "getitem0 a =
     (case shape a of
        [] \<Rightarrow> Inl IndexError
      | n # rest \<Rightarrow>
          if n = 0 then Inl IndexError
          else Inr \<lparr>shape = rest, data = take (prod_list rest) (data a)\<rparr>)"

text \<open>
  \<^verbatim>\<open>Trajectory = collections.namedtuple('Trajectory', 'observ, reward, done, action,
  next_observ, raw_return, return_')\<close>. The field \<^verbatim>\<open>return_\<close> is written \<open>return'\<close>.
  Every field defaults to \<^verbatim>\<open>None\<close>; \<^verbatim>\<open>rollouts\<close>, the only place that builds a
  Trajectory, passes all seven.
\<close>

record trajectory =
  observ :: ndarray
  reward :: real
  "done" :: bool
  action :: ndarray
  next_observ :: ndarray
  raw_return :: real
  return' :: real

text \<open>
  The configuration (\<^verbatim>\<open>default_config\<close>, \<^verbatim>\<open>test_config\<close>, wrapped in an
  \<^verbatim>\<open>AttrDict\<close>).
\<close>

record config =
  use_bias :: bool
  env_name :: string
  discount_factor :: real
  learning_rate :: real
  num_episodes :: int

definition default_config :: config where
  "default_config = \<lparr>use_bias = False, env_name = ''MountainCarContinuous-v0'',
     discount_factor = 995 / 1000, learning_rate = 1 / 1000, num_episodes = 50\<rparr>"

definition test_config :: config where
  "test_config = \<lparr>use_bias = False, env_name = ''MountainCarContinuous-v0'',
     discount_factor = 995 / 1000, learning_rate = 1 / 1000, num_episodes = 5\<rparr>"

section \<open>Policy\<close>

text \<open>
  The trainable variables of \<^verbatim>\<open>Policy._build_model\<close>: the kernels of the three
  \<^verbatim>\<open>tf.layers.dense(..., use_bias=False)\<close> layers, of sizes 2 x 100, 100 x 100 and
  100 x 1. \<open>kernel i j\<close> is the weight from input \<open>i\<close> to unit \<open>j\<close>; the sizes are fixed
  where the layers are applied.
\<close>

record policy =
  kernel1 :: "nat \<Rightarrow> nat \<Rightarrow> float32"
  kernel2 :: "nat \<Rightarrow> nat \<Rightarrow> float32"
  kernel3 :: "nat \<Rightarrow> nat \<Rightarrow> float32"

text \<open>
  A dense layer without bias on a batch of shape \<open>(n, k)\<close>: the matrix product with a
  \<open>k x m\<close> kernel, of shape \<open>(n, m)\<close>, in single precision. The products of a row
  with a column are added in the order of the index; the library's own order of
  addition is not fixed by the program.
\<close>

definition dense :: "(nat \<Rightarrow> nat \<Rightarrow> float32) \<Rightarrow> nat \<Rightarrow> nat \<Rightarrow> ndarray \<Rightarrow> ndarray" where
  "dense w k m x =
     (let n = hd (shape x) in
      \<lparr>shape = [n, m],
       data = concat (map (\<lambda>r. map (\<lambda>c. fsum (map (\<lambda>j. fmul (data x ! (r * k + j)) (w j c)) [0..<k]))
                                  [0..<m]) [0..<n])\<rparr>)"

text \<open>
  \<^verbatim>\<open>tf.clip_by_value(x, lo, hi)\<close>, elementwise: the minimum with \<open>hi\<close>, then the
  maximum with \<open>lo\<close>. A NaN element stays NaN.
\<close>

definition clip_by_value :: "ndarray \<Rightarrow> float32 \<Rightarrow> float32 \<Rightarrow> ndarray" where
  "clip_by_value x lo hi = x\<lparr>data := map (\<lambda>v. fmaximum (fminimum v hi) lo) (data x)\<rparr>"

text \<open>\<^verbatim>\<open>self.model\<close> evaluated on a fed observation batch.\<close>

definition model :: "policy \<Rightarrow> ndarray \<Rightarrow> ndarray" where
  "model p x0 =
     (let x = dense (kernel1 p) 2 100 x0;
          x = dense (kernel2 p) 100 100 x;
          x = dense (kernel3 p) 100 1 x;
          x = clip_by_value x (Finite (- 1)) (Finite 1)
      in x)"

text \<open>
  \<^verbatim>\<open>Policy.compute_action\<close>: the assertion on the shape, the forward pass, and the
  first row of the result.
\<close>

definition compute_action :: "policy \<Rightarrow> ndarray \<Rightarrow> error + ndarray" where
  "compute_action p obs =
     (if shape obs = [1, 2]
      then (let act = model p obs in getitem0 act)
      else Inl AssertionError)"

section \<open>External collaborators\<close>

text \<open>
  The environment (a \<^verbatim>\<open>gym.Env\<close> wrapped in \<^verbatim>\<open>ConvertTo32Bit\<close>), ray's
  \<^verbatim>\<open>MeanStdFilter\<close> and the TensorFlow session are libraries outside the repository.
  Their behaviour is a parameter of the model: deterministic functions on an explicit
  state. \<open>'e\<close> is the state of the environment and \<open>'f\<close> the state of the reward filter.
  \<^item> \<open>env_reset\<close> is \<^verbatim>\<open>env.reset()\<close>: the first observation and the new state;
  \<^item> \<open>env_step\<close> is \<^verbatim>\<open>env.step(action)\<close>: next observation, reward and done flag
    (the info dictionary is dropped by the caller), and the new state;
  \<^item> \<open>filter_call\<close> is \<^verbatim>\<open>reward_filter(reward)\<close>: the adjusted reward and the
    filter's new running statistics;
  \<^item> \<open>sess_run_train\<close> is \<^verbatim>\<open>sess.run([train_op, loss], feed_dict=...)\<close> on the
    current variables with an observation and an action fed: the loss and the updated
    variables, or the error the session raises.
\<close>

record ('e, 'f) externals =
  env_reset :: "'e \<Rightarrow> ndarray \<times> 'e"
  env_step :: "'e \<Rightarrow> ndarray \<Rightarrow> (ndarray \<times> real \<times> bool) \<times> 'e"
  filter_call :: "'f \<Rightarrow> real \<Rightarrow> real \<times> 'f"
  sess_run_train :: "policy \<Rightarrow> ndarray \<Rightarrow> ndarray \<Rightarrow> error + ndarray \<times> policy"

section \<open>Rollouts\<close>

text \<open>
  The loop \<^verbatim>\<open>for t in itertools.count()\<close> of \<^verbatim>\<open>rollouts\<close>, from the top of an iteration.
  The arguments after the configuration are the loop's variables: \<open>t\<close>, \<open>observ\<close>,
  \<open>raw_return\<close>, \<open>return_\<close>, \<open>trajectories\<close>, and the states of the environment and
  of the filter. The loop has no bound: a run that never sees \<open>done\<close> is \<open>None\<close>.
\<close>

partial_function (option) rollouts_loop ::
  "('e, 'f) externals \<Rightarrow> policy \<Rightarrow> config \<Rightarrow> nat \<Rightarrow> ndarray \<Rightarrow> real \<Rightarrow> real \<Rightarrow>
   trajectory list \<Rightarrow> 'e \<Rightarrow> 'f \<Rightarrow> (error + trajectory list \<times> 'e \<times> 'f) option" where
  "rollouts_loop X p cfg t obs rr ret trajectories e f =
     (case compute_action p obs of
        Inl err \<Rightarrow> Some (Inl err)
      | Inr act \<Rightarrow>
          (case env_step X e act of
             ((next_obs, rew, dn), e') \<Rightarrow>
               (let next_obs = newaxis next_obs;
                    act = newaxis act
                in case filter_call X f rew of
                     (rew, f') \<Rightarrow>
                       (let rr = rr + rew;
                            ret = ret + rew * discount_factor cfg ^ t;
                            trajectories = trajectories @
                              [\<lparr>observ = obs, reward = rew, done = dn, action = act,
                                next_observ = next_obs, raw_return = rr, return' = ret\<rparr>]
                        in if dn then Some (Inr (trajectories, e', f'))
                           else rollouts_loop X p cfg (t + 1) next_obs rr ret trajectories e' f'))))"

text \<open>
  \<^verbatim>\<open>rollouts(env, policy, reward_filter, config)\<close>: the episode, and the states the
  environment and the filter are left in.
\<close>

definition rollouts ::
  "('e, 'f) externals \<Rightarrow> policy \<Rightarrow> config \<Rightarrow> 'e \<Rightarrow> 'f \<Rightarrow>
   (error + trajectory list \<times> 'e \<times> 'f) option" where
  "rollouts X p cfg e f =
     (case env_reset X e of
        (obs, e') \<Rightarrow> rollouts_loop X p cfg 0 (newaxis obs) 0 0 [] e' f)"

text \<open>
  What the environment reports when the policy drives it: \<open>step_flag X p k obs e\<close> is the
  done flag of the call of \<^verbatim>\<open>env.step\<close> number \<open>k + 1\<close>, counted from the state \<open>e\<close>
  with \<open>obs\<close> the current (batched) observation, every action being the one
  \<^verbatim>\<open>policy.compute_action\<close> returns. It is \<open>None\<close> when the policy raises before that
  call is reached.
\<close>

fun step_flag ::
  "('e, 'f) externals \<Rightarrow> policy \<Rightarrow> nat \<Rightarrow> ndarray \<Rightarrow> 'e \<Rightarrow> bool option" where
  "step_flag X p 0 obs e =
     (case compute_action p obs of
        Inl err \<Rightarrow> None
      | Inr act \<Rightarrow>
          (case env_step X e act of ((next_obs, rew, dn), e') \<Rightarrow> Some dn))"
| "step_flag X p (Suc k) obs e =
     (case compute_action p obs of
        Inl err \<Rightarrow> None
      | Inr act \<Rightarrow>
          (case env_step X e act of
             ((next_obs, rew, dn), e') \<Rightarrow> step_flag X p k (newaxis next_obs) e'))"

text \<open>
  The environment, reset from state \<open>e\<close> and driven by the policy, terminates after
  exactly \<open>K\<close> steps: \<^verbatim>\<open>env.step\<close> reports done on the \<open>K\<close>-th call and not before.
\<close>

definition terminates_after :: "('e, 'f) externals \<Rightarrow> policy \<Rightarrow> 'e \<Rightarrow> nat \<Rightarrow> bool" where
  "terminates_after X p e K =
     (0 < K \<and>
      (case env_reset X e of
         (obs, e') \<Rightarrow> \<forall>k<K. step_flag X p k (newaxis obs) e' = Some (Suc k = K)))"

section \<open>The REINFORCE driver\<close>

text \<open>
  The mutable state of a \<^verbatim>\<open>REINFORCE\<close> instance: the environment, the policy's
  variables (held by the TensorFlow session) and the reward filter; the configuration
  is read only.
\<close>

record ('e, 'f) reinforce =
  config :: config
  env :: 'e
  policy :: policy
  reward_filter :: 'f

text \<open>
  The first loop of \<^verbatim>\<open>REINFORCE._train\<close>, \<^verbatim>\<open>for _ in range(self.config.num_episodes)\<close>,
  with \<open>n\<close> iterations left. \<^verbatim>\<open>print(episode[0])\<close> raises IndexError on an empty
  episode.
\<close>

fun collect_episodes ::
  "('e, 'f) externals \<Rightarrow> nat \<Rightarrow> trajectory list list \<Rightarrow> ('e, 'f) reinforce \<Rightarrow>
   (error + trajectory list list \<times> ('e, 'f) reinforce) option" where
  "collect_episodes X 0 episodes s = Some (Inr (episodes, s))"
| "collect_episodes X (Suc n) episodes s =
     (case rollouts X (policy s) (config s) (env s) (reward_filter s) of
        None \<Rightarrow> None
      | Some (Inl err) \<Rightarrow> Some (Inl err)
      | Some (Inr (episode, e', f')) \<Rightarrow>
          (case episode of
             [] \<Rightarrow> Some (Inl IndexError)
           | first # _ \<Rightarrow>
               collect_episodes X n (episodes @ [episode])
                 (s\<lparr>env := e', reward_filter := f'\<rparr>)))"

text \<open>The inner loop \<^verbatim>\<open>for trajectory in episode\<close> of \<^verbatim>\<open>REINFORCE._train\<close>.\<close>

fun update_trajectories ::
  "('e, 'f) externals \<Rightarrow> trajectory list \<Rightarrow> ndarray list \<Rightarrow> policy \<Rightarrow>
   error + ndarray list \<times> policy" where
  "update_trajectories X [] losses p = Inr (losses, p)"
| "update_trajectories X (tr # rest) losses p =
     (case sess_run_train X p (observ tr) (action tr) of
        Inl err \<Rightarrow> Inl err
      | Inr (loss, p') \<Rightarrow> update_trajectories X rest (losses @ [loss]) p')"

text \<open>The outer loop \<^verbatim>\<open>for episode in episodes\<close> of \<^verbatim>\<open>REINFORCE._train\<close>.\<close>

fun update_episodes ::
  "('e, 'f) externals \<Rightarrow> trajectory list list \<Rightarrow> ndarray list \<Rightarrow> policy \<Rightarrow>
   error + ndarray list \<times> policy" where
  "update_episodes X [] losses p = Inr (losses, p)"
| "update_episodes X (episode # rest) losses p =
     (case update_trajectories X episode losses p of
        Inl err \<Rightarrow> Inl err
      | Inr (losses', p') \<Rightarrow> update_episodes X rest losses' p')"

text \<open>\<^verbatim>\<open>REINFORCE._train\<close>, written \<open>train'\<close>: the losses and the state left behind.\<close>

definition train' ::
  "('e, 'f) externals \<Rightarrow> ('e, 'f) reinforce \<Rightarrow>
   (error + ndarray list \<times> ('e, 'f) reinforce) option" where
  "train' X s =
     (case collect_episodes X (nat (num_episodes (config s))) [] s of
        None \<Rightarrow> None
      | Some (Inl err) \<Rightarrow> Some (Inl err)
      | Some (Inr (episodes, s')) \<Rightarrow>
          (case update_episodes X episodes [] (policy s') of
             Inl err \<Rightarrow> Some (Inl err)
           | Inr (losses, p') \<Rightarrow> Some (Inr (losses, s'\<lparr>policy := p'\<rparr>))))"

text \<open>
  \<^verbatim>\<open>REINFORCE.train\<close> is a generator. Its state is the number of iterations that
  \<^verbatim>\<open>range(num_iters)\<close> has left, \<open>nat num_iters\<close> when the generator is created;
  creating it runs nothing. \<open>train_next\<close> is one \<^verbatim>\<open>next()\<close> on it: \<open>None\<close> in the
  result is StopIteration, \<open>Some (losses, r)\<close> is the yielded list with the generator's
  new state.
\<close>

definition train_next ::
  "('e, 'f) externals \<Rightarrow> nat \<Rightarrow> ('e, 'f) reinforce \<Rightarrow>
   (error + (ndarray list \<times> nat) option \<times> ('e, 'f) reinforce) option" where
  "train_next X remaining s =
     (case remaining of
        0 \<Rightarrow> Some (Inr (None, s))
      | Suc r \<Rightarrow>
          (case train' X s of
             None \<Rightarrow> None
           | Some (Inl err) \<Rightarrow> Some (Inl err)
           | Some (Inr (losses, s')) \<Rightarrow> Some (Inr (Some (losses, r), s'))))"

text \<open>
  The generator consumed to exhaustion, as \<^verbatim>\<open>for losses in agent.train(...)\<close> does:
  everything it yields, in order.
\<close>

fun train_remaining ::
  "('e, 'f) externals \<Rightarrow> nat \<Rightarrow> ('e, 'f) reinforce \<Rightarrow>
   (error + ndarray list list \<times> ('e, 'f) reinforce) option" where
  "train_remaining X 0 s = Some (Inr ([], s))"
| "train_remaining X (Suc r) s =
     (case train' X s of
        None \<Rightarrow> None
      | Some (Inl err) \<Rightarrow> Some (Inl err)
      | Some (Inr (losses, s')) \<Rightarrow>
          (case train_remaining X r s' of
             None \<Rightarrow> None
           | Some (Inl err) \<Rightarrow> Some (Inl err)
           | Some (Inr (yielded, s'')) \<Rightarrow> Some (Inr (losses # yielded, s''))))"

definition train ::
  "('e, 'f) externals \<Rightarrow> int \<Rightarrow> ('e, 'f) reinforce \<Rightarrow>
   (error + ndarray list list \<times> ('e, 'f) reinforce) option" where
  "train X num_iters s = train_remaining X (nat num_iters) s"

section \<open>The training iteration in the specification's words\<close>

text \<open>
  "Collect \<open>config.num_episodes\<close> rollouts sequentially": \<open>n\<close> rollouts one after the
  other, each from the state the one before left.
\<close>

fun sequential_rollouts ::
  "('e, 'f) externals \<Rightarrow> nat \<Rightarrow> ('e, 'f) reinforce \<Rightarrow>
   (error + trajectory list list \<times> ('e, 'f) reinforce) option" where
  "sequential_rollouts X 0 s = Some (Inr ([], s))"
| "sequential_rollouts X (Suc n) s =
     (case rollouts X (policy s) (config s) (env s) (reward_filter s) of
        None \<Rightarrow> None
      | Some (Inl err) \<Rightarrow> Some (Inl err)
      | Some (Inr (episode, e', f')) \<Rightarrow>
          (case sequential_rollouts X n (s\<lparr>env := e', reward_filter := f'\<rparr>) of
             None \<Rightarrow> None
           | Some (Inl err) \<Rightarrow> Some (Inl err)
           | Some (Inr (episodes, s')) \<Rightarrow> Some (Inr (episode # episodes, s'))))"

text \<open>
  "For every Trajectory, perform one update call using that single step's
  observation/action pair, recording the resulting loss": one update per element of a
  list of trajectories, in order.
\<close>

fun update_each ::
  "('e, 'f) externals \<Rightarrow> trajectory list \<Rightarrow> policy \<Rightarrow> error + ndarray list \<times> policy" where
  "update_each X [] p = Inr ([], p)"
| "update_each X (tr # rest) p =
     (case sess_run_train X p (observ tr) (action tr) of
        Inl err \<Rightarrow> Inl err
      | Inr (loss, p') \<Rightarrow>
          (case update_each X rest p' of
             Inl err \<Rightarrow> Inl err
           | Inr (losses, p'') \<Rightarrow> Inr (loss # losses, p'')))"

text \<open>One iteration: the rollouts first, then the updates over every collected step.\<close>

definition iteration_spec ::
  "('e, 'f) externals \<Rightarrow> ('e, 'f) reinforce \<Rightarrow>
   (error + ndarray list \<times> ('e, 'f) reinforce) option" where
  "iteration_spec X s =
     (case sequential_rollouts X (nat (num_episodes (config s))) s of
        None \<Rightarrow> None
      | Some (Inl err) \<Rightarrow> Some (Inl err)
      | Some (Inr (episodes, s')) \<Rightarrow>
          (case update_each X (concat episodes) (policy s') of
             Inl err \<Rightarrow> Some (Inl err)
           | Inr (losses, p') \<Rightarrow> Some (Inr (losses, s'\<lparr>policy := p'\<rparr>))))"

text \<open>\<open>n\<close> iterations, one loss list each.\<close>

fun train_spec ::
  "('e, 'f) externals \<Rightarrow> nat \<Rightarrow> ('e, 'f) reinforce \<Rightarrow>
   (error + ndarray list list \<times> ('e, 'f) reinforce) option" where
  "train_spec X 0 s = Some (Inr ([], s))"
| "train_spec X (Suc n) s =
     (case iteration_spec X s of
        None \<Rightarrow> None
      | Some (Inl err) \<Rightarrow> Some (Inl err)
      | Some (Inr (losses, s')) \<Rightarrow>
          (case train_spec X n s' of
             None \<Rightarrow> None
           | Some (Inl err) \<Rightarrow> Some (Inl err)
           | Some (Inr (yielded, s'')) \<Rightarrow> Some (Inr (losses # yielded, s''))))"

section \<open>The reward filter of the specification, and a stub environment\<close>

text \<open>
  The state of the reward filter: the running count, the running mean and the running
  sum of squared deviations from the mean.
\<close>

record filter_state =
  rf_count :: nat
  rf_mean :: real
  rf_m2 :: real

text \<open>
  Modelled from the spec: the RewardFilter of section 4.1, \<open>normalize\<close>. The program
  calls ray's \<^verbatim>\<open>MeanStdFilter((), clip=5.)\<close>, whose code is not in the repository.
  The statistics are updated with the new reward first (Welford's update; the variance
  is the sample variance). The first sample is returned unmodified; later ones are
  centred, divided by \<open>sqrt (variance + eps)\<close> and clipped to \<open>[- clip, clip]\<close>.
\<close>

definition normalize :: "real \<Rightarrow> real \<Rightarrow> filter_state \<Rightarrow> real \<Rightarrow> real \<times> filter_state" where
  "normalize eps clip f x =
     (let n = rf_count f + 1;
          delta = x - rf_mean f;
          mean = rf_mean f + delta / real n;
          m2 = rf_m2 f + delta * (x - mean);
          f' = \<lparr>rf_count = n, rf_mean = mean, rf_m2 = m2\<rparr>
      in if n = 1 then (x, f')
         else (let z = (x - mean) / sqrt (m2 / real (n - 1) + eps)
               in (min (max z (- clip)) clip, f')))"

definition initial_filter :: filter_state where
  "initial_filter = \<lparr>rf_count = 0, rf_mean = 0, rf_m2 = 0\<rparr>"

text \<open>
  A stub environment: its state counts the steps since the last reset, every step has
  reward 1, and done is reported on step number \<open>h\<close>. Observations are the
  two-dimensional zero vector. With \<open>h = 3\<close> it is the stub of the specification's
  concrete scenario.
\<close>

definition stub_observation :: ndarray where
  "stub_observation = \<lparr>shape = [2], data = [Finite 0, Finite 0]\<rparr>"

definition stub_reset :: "nat \<Rightarrow> ndarray \<times> nat" where
  "stub_reset n = (stub_observation, 0)"

definition stub_step :: "nat \<Rightarrow> nat \<Rightarrow> ndarray \<Rightarrow> (ndarray \<times> real \<times> bool) \<times> nat" where
  "stub_step h n act = ((stub_observation, 1, n + 1 = h), n + 1)"

definition stub_externals ::
  "nat \<Rightarrow> ('f \<Rightarrow> real \<Rightarrow> real \<times> 'f) \<Rightarrow>
   (policy \<Rightarrow> ndarray \<Rightarrow> ndarray \<Rightarrow> error + ndarray \<times> policy) \<Rightarrow> (nat, 'f) externals" where
  "stub_externals h fc tr =
     \<lparr>env_reset = stub_reset, env_step = stub_step h, filter_call = fc, sess_run_train = tr\<rparr>"

text \<open>A filter that returns every reward unchanged, and one that normalizes.\<close>

definition identity_filter :: "unit \<Rightarrow> real \<Rightarrow> real \<times> unit" where
  "identity_filter f x = (x, f)"

definition scenario_config :: config where
  "scenario_config = test_config\<lparr>discount_factor := 995 / 1000, num_episodes := 2\<rparr>"

text \<open>Concrete variables and a session stub that reports a zero loss and changes nothing.\<close>

definition zero_policy :: policy where
  "zero_policy = \<lparr>kernel1 = (\<lambda>i j. Finite 0), kernel2 = (\<lambda>i j. Finite 0),
     kernel3 = (\<lambda>i j. Finite 0)\<rparr>"

text \<open>Variables whose kernels each hold one value in every position.\<close>

definition uniform_policy :: "float32 \<Rightarrow> float32 \<Rightarrow> float32 \<Rightarrow> policy" where
  "uniform_policy a b c = \<lparr>kernel1 = (\<lambda>i j. a), kernel2 = (\<lambda>i j. b), kernel3 = (\<lambda>i j. c)\<rparr>"

definition stub_session :: "policy \<Rightarrow> ndarray \<Rightarrow> ndarray \<Rightarrow> error + ndarray \<times> policy" where
  "stub_session p obs act = Inr (\<lparr>shape = [1, 1], data = [Finite 0]\<rparr>, p)"

section \<open>Invariants of the rollout loop\<close>

text \<open>
  \<open>accumulated g t rr ret ts\<close>: along \<open>ts\<close>, each entry's \<open>raw_return\<close> is the one before
  plus its reward, and each \<open>return_\<close> the one before plus its reward times \<open>g ^ t\<close>,
  starting from \<open>rr\<close> and \<open>ret\<close> at step \<open>t\<close>.
\<close>

fun accumulated :: "real \<Rightarrow> nat \<Rightarrow> real \<Rightarrow> real \<Rightarrow> trajectory list \<Rightarrow> bool" where
  "accumulated g t rr ret [] = True"
| "accumulated g t rr ret (x # xs) =
     (raw_return x = rr + reward x \<and> return' x = ret + reward x * g ^ t \<and>
      accumulated g (Suc t) (raw_return x) (return' x) xs)"

text \<open>\<open>linked obs ts\<close>: each entry starts from the observation the one before ended in.\<close>

fun linked :: "ndarray \<Rightarrow> trajectory list \<Rightarrow> bool" where
  "linked obs [] = True"
| "linked obs (x # xs) = (observ x = obs \<and> linked (next_observ x) xs)"

section \<open>Lemmas about the policy\<close>

lemma dense_shape: "shape (dense w k m x) = [hd (shape x), m]"
  by (simp add: dense_def Let_def)

lemma model_shape: "shape (model p x) = [hd (shape x), 1]"
  by (simp add: model_def Let_def clip_by_value_def dense_shape)

lemma model_data_len: "length (data (model p x)) = hd (shape x)"
  by (simp add: model_def Let_def clip_by_value_def dense_def length_concat comp_def sum_list_triv)

lemma clipped_value:
  "fmaximum (fminimum v (Finite 1)) (Finite (- 1)) = NaN \<or>
   (\<exists>r. fmaximum (fminimum v (Finite 1)) (Finite (- 1)) = Finite r \<and> - 1 \<le> r \<and> r \<le> 1)"
  by (cases v) auto

lemma model_bounds:
  "v \<in> set (data (model p x)) \<Longrightarrow> v = NaN \<or> (\<exists>r. v = Finite r \<and> - 1 \<le> r \<and> r \<le> 1)"
  using clipped_value by (auto simp add: model_def Let_def clip_by_value_def)

lemma compute_action_ok:
  assumes "shape obs = [1, 2]"
  shows "\<exists>a. compute_action p obs = Inr a \<and> shape a = [1] \<and> length (data a) = 1
          \<and> (\<forall>v\<in>set (data a). v = NaN \<or> (\<exists>r. v = Finite r \<and> - 1 \<le> r \<and> r \<le> 1))"
  using assms model_bounds[of _ p obs]
  by (auto simp add: compute_action_def Let_def getitem0_def model_shape model_data_len dest: in_set_takeD)

lemma compute_action_fail: "shape obs \<noteq> [1, 2] \<Longrightarrow> compute_action p obs = Inl AssertionError"
  by (simp add: compute_action_def)

lemma compute_action_InrD:
  assumes "compute_action p obs = Inr a"
  shows "shape obs = [1, 2] \<and> shape a = [1]"
proof -
  have s: "shape obs = [1, 2]"
    using assms compute_action_fail[of obs p] by (cases "shape obs = [1, 2]") auto
  from compute_action_ok[OF s, of p] assms show ?thesis using s by auto
qed

text \<open>Single-precision sums of equal terms.\<close>

lemma to_float32_in_range:
  "- float32_max \<le> x \<Longrightarrow> x \<le> float32_max \<Longrightarrow> to_float32 x = Finite x"
  by (auto simp add: to_float32_def float32_max_def)

lemma to_float32_overflow: "2 ^ 128 \<le> x \<Longrightarrow> to_float32 x = PosInf"
  by (simp add: to_float32_def)

lemma foldl_fadd_PosInf:
  "acc = PosInf \<or> (\<exists>a. acc = Finite a) \<Longrightarrow> foldl fadd acc (replicate (Suc n) PosInf) = PosInf"
proof (induction n arbitrary: acc)
  case 0
  then show ?case by auto
next
  case (Suc n)
  from Suc.prems have "fadd acc PosInf = PosInf" by auto
  with Suc.IH[of "fadd acc PosInf"] show ?case by simp
qed

lemma foldl_fadd_NaN: "foldl fadd NaN xs = NaN"
  by (induction xs) simp_all

lemma fsum_NaN: "0 < n \<Longrightarrow> fsum (replicate n NaN) = NaN"
  by (cases n) (simp_all add: fsum_def foldl_fadd_NaN)

lemma fsum_PosInf: "0 < n \<Longrightarrow> fsum (replicate n PosInf) = PosInf"
  by (cases n) (simp_all add: fsum_def foldl_fadd_PosInf del: replicate_Suc foldl_Cons)

lemma foldl_fadd_Finite:
  "0 \<le> a \<Longrightarrow> 0 \<le> b \<Longrightarrow> a + real n * b \<le> float32_max \<Longrightarrow>
   foldl fadd (Finite a) (replicate n (Finite b)) = Finite (a + real n * b)"
proof (induction n arbitrary: a)
  case 0
  then show ?case by simp
next
  case (Suc n)
  have le: "a + b \<le> a + real (Suc n) * b"
    using Suc.prems(2) by (simp add: algebra_simps)
  have m: "0 \<le> float32_max" by (simp add: float32_max_def)
  have "to_float32 (a + b) = Finite (a + b)"
    using Suc.prems le m by (intro to_float32_in_range) linarith+
  moreover have "foldl fadd (Finite (a + b)) (replicate n (Finite b)) = Finite (a + b + real n * b)"
    using Suc.prems by (intro Suc.IH) (simp_all add: algebra_simps)
  ultimately show ?case by (simp add: algebra_simps)
qed

lemma fsum_Finite:
  "0 \<le> b \<Longrightarrow> real n * b \<le> float32_max \<Longrightarrow> fsum (replicate n (Finite b)) = Finite (real n * b)"
  using foldl_fadd_Finite[of 0 b n] by (simp add: fsum_def)

lemma map_upt_const: "(\<And>j. j < k \<Longrightarrow> f j = c) \<Longrightarrow> map f [0..<k] = replicate k c"
  by (simp add: list_eq_iff_nth_eq)

text \<open>A dense layer on one row whose entries are all equal, with a uniform kernel.\<close>

lemma dense_uniform:
  assumes "hd (shape x) = 1" and "\<And>j. j < k \<Longrightarrow> data x ! j = a"
  shows "dense (\<lambda>i j. w) k m x = \<lparr>shape = [1, m], data = replicate m (fsum (replicate k (fmul a w)))\<rparr>"
proof -
  have "map (\<lambda>j. fmul (data x ! j) w) [0..<k] = replicate k (fmul a w)"
    using assms(2) by (intro map_upt_const) simp
  then show ?thesis
    using assms(1) by (simp add: dense_def Let_def map_replicate_const)
qed

lemma model_uniform:
  assumes "shape x = [1, 2]" and "data x = [a, a]"
  shows "model (uniform_policy w1 w2 w3) x =
     \<lparr>shape = [1, 1],
      data = [fmaximum (fminimum
        (fsum (replicate 100 (fmul (fsum (replicate 100 (fmul (fsum (replicate 2 (fmul a w1))) w2))) w3)))
        (Finite 1)) (Finite (- 1))]\<rparr>"
proof -
  have x: "hd (shape x) = 1" "\<And>j. j < 2 \<Longrightarrow> data x ! j = a"
    using assms by (auto simp add: less_2_cases_iff)
  let ?l1 = "dense (\<lambda>i j. w1) 2 100 x"
  have l1: "?l1 = \<lparr>shape = [1, 100], data = replicate 100 (fsum (replicate 2 (fmul a w1)))\<rparr>"
    by (rule dense_uniform[OF x])
  let ?l2 = "dense (\<lambda>i j. w2) 100 100 ?l1"
  have l2: "?l2 = \<lparr>shape = [1, 100],
      data = replicate 100 (fsum (replicate 100 (fmul (fsum (replicate 2 (fmul a w1))) w2)))\<rparr>"
    by (rule dense_uniform) (simp_all add: l1)
  let ?l3 = "dense (\<lambda>i j. w3) 100 1 ?l2"
  have l3: "?l3 = \<lparr>shape = [1, 1],
      data = replicate 1 (fsum (replicate 100
        (fmul (fsum (replicate 100 (fmul (fsum (replicate 2 (fmul a w1))) w2))) w3)))\<rparr>"
    by (rule dense_uniform) (simp_all add: l2)
  have "model (uniform_policy w1 w2 w3) x = clip_by_value ?l3 (Finite (- 1)) (Finite 1)"
    by (simp add: model_def uniform_policy_def Let_def)
  also have "\<dots> = \<lparr>shape = [1, 1],
      data = [fmaximum (fminimum
        (fsum (replicate 100 (fmul (fsum (replicate 100 (fmul (fsum (replicate 2 (fmul a w1))) w2))) w3)))
        (Finite 1)) (Finite (- 1))]\<rparr>"
    unfolding l3 by (simp add: clip_by_value_def)
  finally show ?thesis .
qed

lemma compute_action_uniform:
  assumes "shape x = [1, 2]" and "data x = [a, a]"
  shows "compute_action (uniform_policy w1 w2 w3) x =
     Inr \<lparr>shape = [1],
      data = [fmaximum (fminimum
        (fsum (replicate 100 (fmul (fsum (replicate 100 (fmul (fsum (replicate 2 (fmul a w1))) w2))) w3)))
        (Finite 1)) (Finite (- 1))]\<rparr>"
  by (simp add: compute_action_def assms(1) model_uniform[OF assms] getitem0_def)

lemma clip_example:
  "compute_action (uniform_policy (Finite 1) (Finite 1) (Finite 1))
     \<lparr>shape = [1, 2], data = [Finite 1, Finite 1]\<rparr>
   = Inr \<lparr>shape = [1], data = [Finite 1]\<rparr>"
proof -
  have m: "20000 \<le> float32_max" by (simp add: float32_max_def)
  have a: "fsum (replicate 2 (Finite 1)) = Finite 2"
    using fsum_Finite[of 1 2] m by simp
  have b: "fsum (replicate 100 (Finite 2)) = Finite 200"
    using fsum_Finite[of 2 100] m by simp
  have c: "fsum (replicate 100 (Finite 200)) = Finite 20000"
    using fsum_Finite[of 200 100] m by simp
  have t: "to_float32 1 = Finite 1" "to_float32 2 = Finite 2" "to_float32 200 = Finite 200"
    using m by (simp_all add: to_float32_in_range)
  show ?thesis
    by (subst compute_action_uniform[where a = "Finite 1"]) (simp_all add: t a b c)
qed

section \<open>Lemmas about the rollout loop\<close>

text \<open>
  One iteration of the loop, as a conditional rewrite rule.
\<close>

lemma rollouts_loop_raise:
  "compute_action p obs = Inl err \<Longrightarrow>
   rollouts_loop X p cfg t obs rr ret trs e f = Some (Inl err)"
  by (subst rollouts_loop.simps) simp

lemma rollouts_loop_step:
  assumes "compute_action p obs = Inr act"
    and "env_step X e act = ((next_obs, rew, dn), e')"
    and "filter_call X f rew = (rew', f')"
  shows "rollouts_loop X p cfg t obs rr ret trs e f =
     (if dn
      then Some (Inr (trs @ [\<lparr>observ = obs, reward = rew', done = dn, action = newaxis act,
              next_observ = newaxis next_obs, raw_return = rr + rew',
              return' = ret + rew' * discount_factor cfg ^ t\<rparr>], e', f'))
      else rollouts_loop X p cfg (Suc t) (newaxis next_obs) (rr + rew')
             (ret + rew' * discount_factor cfg ^ t)
             (trs @ [\<lparr>observ = obs, reward = rew', done = dn, action = newaxis act,
              next_observ = newaxis next_obs, raw_return = rr + rew',
              return' = ret + rew' * discount_factor cfg ^ t\<rparr>]) e' f')"
  by (subst rollouts_loop.simps) (simp add: assms Let_def)

text \<open>
  Partial correctness: whatever the loop returns extends the list it was given by at
  least one entry, and the new entries satisfy the invariants.
\<close>

lemma rollouts_loop_returns:
  assumes "rollouts_loop X p cfg t obs rr ret trs e f = Some (Inr (ts, e1, f1))"
  shows "\<exists>new. ts = trs @ new \<and> new \<noteq> [] \<and> accumulated (discount_factor cfg) t rr ret new
           \<and> linked obs new \<and> done (last new) \<and> (\<forall>x\<in>set (butlast new). \<not> done x)
           \<and> (\<forall>x\<in>set new. shape (observ x) = [1, 2] \<and> shape (action x) = [1, 1])"
  using assms
proof (induction X p cfg t obs rr ret trs e f "Inr (ts, e1, f1) :: error + trajectory list \<times> 'a \<times> 'b"
    arbitrary: ts e1 f1 rule: rollouts_loop.raw_induct[rotated, consumes 1])
  case (1 loop X p cfg t obs rr ret trs e f ts e1 f1)
    note IH = 1(1) and body = 1(2)
    from body obtain act where ca: "compute_action p obs = Inr act"
      by (cases "compute_action p obs") auto
    from compute_action_InrD[OF ca] have so: "shape obs = [1, 2]" and sa: "shape act = [1]"
      by auto
    obtain next_obs rew dn e' where st: "env_step X e act = ((next_obs, rew, dn), e')"
      by (metis prod_cases3 surj_pair)
    obtain rew' f' where fc: "filter_call X f rew = (rew', f')"
      by (metis surj_pair)
    define tr where "tr = \<lparr>observ = obs, reward = rew', done = dn, action = newaxis act,
              next_observ = newaxis next_obs, raw_return = rr + rew',
              return' = ret + rew' * discount_factor cfg ^ t\<rparr>"
    have trs_shapes: "shape (observ tr) = [1, 2]" "shape (action tr) = [1, 1]"
      by (simp_all add: tr_def so sa newaxis_def)
    show ?case
    proof (cases dn)
      case True
      with body ca st fc have "ts = trs @ [tr]"
        by (simp add: Let_def tr_def)
      then show ?thesis using True trs_shapes
        by (intro exI[of _ "[tr]"]) (simp add: tr_def)
    next
      case False
      with body ca st fc
      have "loop X p cfg (t + 1) (newaxis next_obs) (rr + rew')
              (ret + rew' * discount_factor cfg ^ t) (trs @ [tr]) e' f' = Some (Inr (ts, e1, f1))"
        by (simp add: Let_def tr_def)
      from IH[OF this]
      obtain new where new: "ts = (trs @ [tr]) @ new" "new \<noteq> []"
          "accumulated (discount_factor cfg) (t + 1) (rr + rew') (ret + rew' * discount_factor cfg ^ t) new"
          "linked (newaxis next_obs) new" "done (last new)" "\<forall>x\<in>set (butlast new). \<not> done x"
          "\<forall>x\<in>set new. shape (observ x) = [1, 2] \<and> shape (action x) = [1, 1]"
        by blast
      show ?thesis
        using new False trs_shapes
        by (intro exI[of _ "tr # new"]) (simp add: tr_def)
    qed
qed

lemma step_flag_Suc:
  assumes "compute_action p obs = Inr act"
    and "env_step X e act = ((next_obs, rew, dn), e')"
  shows "step_flag X p (Suc k) obs e = step_flag X p k (newaxis next_obs) e'"
    and "step_flag X p 0 obs e = Some dn"
  using assms by simp_all

lemma step_flag_SomeD:
  assumes "step_flag X p k obs e = Some b"
  obtains act next_obs rew dn e' where "compute_action p obs = Inr act"
    and "env_step X e act = ((next_obs, rew, dn), e')"
proof (cases "compute_action p obs")
  case (Inl err)
  with assms show ?thesis by (cases k) simp_all
next
  case (Inr act)
  obtain next_obs rew dn e' where "env_step X e act = ((next_obs, rew, dn), e')"
    by (metis prod_cases3 surj_pair)
  with Inr that show ?thesis by blast
qed

text \<open>
  Total correctness: a loop that sees done on its \<open>K\<close>-th step returns, \<open>K\<close> entries
  longer.
\<close>

lemma rollouts_loop_terminates:
  assumes "0 < K" and "\<forall>k<K. step_flag X p k obs e = Some (Suc k = K)"
  shows "\<exists>ts e1 f1. rollouts_loop X p cfg t obs rr ret trs e f = Some (Inr (ts, e1, f1))
           \<and> length ts = length trs + K"
  using assms
proof (induction K arbitrary: t obs rr ret trs e f)
  case 0
  then show ?case by simp
next
  case (Suc K)
  from Suc.prems have f0: "step_flag X p 0 obs e = Some (K = 0)" by auto
  from step_flag_SomeD[OF f0] obtain act next_obs rew dn e'
    where ca: "compute_action p obs = Inr act"
      and st: "env_step X e act = ((next_obs, rew, dn), e')" by blast
  obtain rew' f' where fc: "filter_call X f rew = (rew', f')" by (metis surj_pair)
  from f0 ca st have dn: "dn = (K = 0)" by simp
  show ?case
  proof (cases "K = 0")
    case True
    with dn show ?thesis
      by (simp add: rollouts_loop_step[OF ca st fc])
  next
    case False
    have "\<forall>k<K. step_flag X p k (newaxis next_obs) e' = Some (Suc k = K)"
    proof (intro allI impI)
      fix k assume "k < K"
      then have "step_flag X p (Suc k) obs e = Some (Suc (Suc k) = Suc K)"
        using Suc.prems by blast
      then show "step_flag X p k (newaxis next_obs) e' = Some (Suc k = K)"
        using step_flag_Suc(1)[OF ca st] by simp
    qed
    with False Suc.IH[of "newaxis next_obs" e']
    obtain ts e1 f1 where
      "rollouts_loop X p cfg (Suc t) (newaxis next_obs) (rr + rew')
         (ret + rew' * discount_factor cfg ^ t)
         (trs @ [\<lparr>observ = obs, reward = rew', done = dn, action = newaxis act,
              next_observ = newaxis next_obs, raw_return = rr + rew',
              return' = ret + rew' * discount_factor cfg ^ t\<rparr>]) e' f'
       = Some (Inr (ts, e1, f1))"
      "length ts = length (trs @ [\<lparr>observ = obs, reward = rew', done = dn, action = newaxis act,
              next_observ = newaxis next_obs, raw_return = rr + rew',
              return' = ret + rew' * discount_factor cfg ^ t\<rparr>]) + K"
      by blast
    with False dn show ?thesis
      by (simp add: rollouts_loop_step[OF ca st fc])
  qed
qed

lemma accumulated_raw:
  "accumulated g t rr ret xs \<Longrightarrow> i < length xs \<Longrightarrow>
   raw_return (xs ! i) = (if i = 0 then rr else raw_return (xs ! (i - 1))) + reward (xs ! i)"
proof (induction xs arbitrary: i t rr ret)
  case Nil
  then show ?case by simp
next
  case (Cons x xs)
  show ?case
  proof (cases i)
    case 0
    with Cons.prems show ?thesis by simp
  next
    case (Suc j)
    with Cons.prems Cons.IH[of "Suc t" "raw_return x" "return' x" j] show ?thesis
      by (cases j) auto
  qed
qed

lemma accumulated_undiscounted:
  "accumulated 1 t rr rr xs \<Longrightarrow> x \<in> set xs \<Longrightarrow> return' x = raw_return x"
  by (induction xs arbitrary: t rr) auto

lemma linked_nth:
  "linked obs xs \<Longrightarrow> i < length xs \<Longrightarrow>
   observ (xs ! i) = (if i = 0 then obs else next_observ (xs ! (i - 1)))"
proof (induction xs arbitrary: i obs)
  case Nil
  then show ?case by simp
next
  case (Cons x xs)
  show ?case
  proof (cases i)
    case 0
    with Cons.prems show ?thesis by simp
  next
    case (Suc j)
    with Cons.prems Cons.IH[of "next_observ x" j] show ?thesis
      by (cases j) auto
  qed
qed

lemma done_flags_nth:
  assumes "xs \<noteq> []" "done (last xs)" "\<forall>x\<in>set (butlast xs). \<not> done x" "i < length xs"
  shows "done (xs ! i) = (Suc i = length xs)"
proof (cases "Suc i = length xs")
  case True
  then have "length xs - 1 = i" by simp
  with assms(1,2) True show ?thesis by (simp add: last_conv_nth)
next
  case False
  with assms(4) have "i < length (butlast xs)" by simp
  then have "butlast xs ! i \<in> set (butlast xs)" by (rule nth_mem)
  with assms(3) \<open>i < length (butlast xs)\<close> False show ?thesis
    by (simp add: nth_butlast)
qed

lemma rollouts_returns:
  assumes "rollouts X p cfg e f = Some (Inr (ts, e1, f1))"
  shows "ts \<noteq> [] \<and> accumulated (discount_factor cfg) 0 0 0 ts
           \<and> linked (newaxis (fst (env_reset X e))) ts \<and> done (last ts)
           \<and> (\<forall>x\<in>set (butlast ts). \<not> done x)
           \<and> (\<forall>x\<in>set ts. shape (observ x) = [1, 2] \<and> shape (action x) = [1, 1])"
proof -
  obtain obs e' where r: "env_reset X e = (obs, e')" by (metis surj_pair)
  with assms have "rollouts_loop X p cfg 0 (newaxis obs) 0 0 [] e' f = Some (Inr (ts, e1, f1))"
    by (simp add: rollouts_def)
  from rollouts_loop_returns[OF this] r show ?thesis by simp
qed

lemma rollouts_terminates:
  assumes "terminates_after X p e K"
  shows "\<exists>ts e1 f1. rollouts X p cfg e f = Some (Inr (ts, e1, f1)) \<and> length ts = K"
proof -
  obtain obs e' where r: "env_reset X e = (obs, e')" by (metis surj_pair)
  with assms have K: "0 < K" "\<forall>k<K. step_flag X p k (newaxis obs) e' = Some (Suc k = K)"
    by (simp_all add: terminates_after_def)
  from rollouts_loop_terminates[OF K, of cfg 0 0 0 "[]" f] r show ?thesis
    by (simp add: rollouts_def)
qed

section \<open>Lemmas about the stub environment\<close>

lemma stub_obs_shape: "shape (newaxis stub_observation) = [1, 2]"
  by (simp add: newaxis_def stub_observation_def)

lemma stub_step_flag:
  "step_flag (stub_externals h fc tr) p k (newaxis stub_observation) n = Some (n + Suc k = h)"
proof (induction k arbitrary: n)
  case 0
  from compute_action_ok[OF stub_obs_shape, of p] obtain a
    where "compute_action p (newaxis stub_observation) = Inr a" by blast
  then show ?case by (simp add: stub_externals_def stub_step_def)
next
  case (Suc k)
  from compute_action_ok[OF stub_obs_shape, of p] obtain a
    where "compute_action p (newaxis stub_observation) = Inr a" by blast
  then show ?case using Suc.IH[of "n + 1"] by (simp add: stub_externals_def stub_step_def)
qed

lemma stub_terminates: "0 < h \<Longrightarrow> terminates_after (stub_externals h fc tr) p e h"
  by (simp add: terminates_after_def stub_step_flag)
     (simp add: stub_externals_def stub_reset_def stub_step_flag[unfolded stub_externals_def])

lemma stub_rollouts:
  assumes "fc f 1 = (r1, f1)" "fc f1 1 = (r2, f2)" "fc f2 1 = (r3, f3)"
  shows "\<exists>a. rollouts (stub_externals 3 fc tr) p cfg e f =
     Some (Inr ([\<lparr>observ = newaxis stub_observation, reward = r1, done = False,
                   action = newaxis a, next_observ = newaxis stub_observation,
                   raw_return = r1, return' = r1\<rparr>,
                 \<lparr>observ = newaxis stub_observation, reward = r2, done = False,
                   action = newaxis a, next_observ = newaxis stub_observation,
                   raw_return = r1 + r2, return' = r1 + r2 * discount_factor cfg\<rparr>,
                 \<lparr>observ = newaxis stub_observation, reward = r3, done = True,
                   action = newaxis a, next_observ = newaxis stub_observation,
                   raw_return = r1 + r2 + r3,
                   return' = r1 + r2 * discount_factor cfg + r3 * discount_factor cfg ^ 2\<rparr>],
                3, f3))"
proof -
  let ?X = "stub_externals 3 fc tr"
  from compute_action_ok[OF stub_obs_shape, of p] obtain a
    where ca: "compute_action p (newaxis stub_observation) = Inr a" by blast
  have st: "\<And>n. env_step ?X n a = ((stub_observation, 1, n + 1 = 3), n + 1)"
    by (simp add: stub_externals_def stub_step_def)
  have fcs: "filter_call ?X f 1 = (r1, f1)" "filter_call ?X f1 1 = (r2, f2)"
      "filter_call ?X f2 1 = (r3, f3)"
    using assms by (simp_all add: stub_externals_def)
  have rs: "env_reset ?X e = (stub_observation, 0)"
    by (simp add: stub_externals_def stub_reset_def)
  show ?thesis
    by (rule exI[of _ a])
       (simp add: rollouts_def rs rollouts_loop_step[OF ca st fcs(1)]
          rollouts_loop_step[OF ca st fcs(2)] rollouts_loop_step[OF ca st fcs(3)]
          power2_eq_square)
qed

lemma normalize_scenario:
  "normalize eps 5 initial_filter 1 = (1, \<lparr>rf_count = 1, rf_mean = 1, rf_m2 = 0\<rparr>)"
  "normalize eps 5 \<lparr>rf_count = 1, rf_mean = 1, rf_m2 = 0\<rparr> 1 = (0, \<lparr>rf_count = 2, rf_mean = 1, rf_m2 = 0\<rparr>)"
  "normalize eps 5 \<lparr>rf_count = 2, rf_mean = 1, rf_m2 = 0\<rparr> 1 = (0, \<lparr>rf_count = 3, rf_mean = 1, rf_m2 = 0\<rparr>)"
  by (simp_all add: normalize_def initial_filter_def Let_def)

section \<open>Lemmas about the training loop\<close>

text \<open>
  The accumulator loops of the program compute what the specification's wording
  describes.
\<close>

lemma collect_episodes_eq:
  "collect_episodes X n acc s =
     (case sequential_rollouts X n s of
        None \<Rightarrow> None
      | Some (Inl err) \<Rightarrow> Some (Inl err)
      | Some (Inr (episodes, s')) \<Rightarrow> Some (Inr (acc @ episodes, s')))"
proof (induction n arbitrary: acc s)
  case 0
  show ?case by simp
next
  case (Suc n)
  show ?case
  proof (cases "rollouts X (policy s) (config s) (env s) (reward_filter s)")
    case None
    then show ?thesis by simp
  next
    case (Some r)
    show ?thesis
    proof (cases r)
      case (Inl err)
      with Some show ?thesis by simp
    next
      case (Inr v)
      obtain episode e' f' where v: "v = (episode, e', f')" by (cases v) auto
      from rollouts_returns[OF Some[unfolded Inr v]] have "episode \<noteq> []" by simp
      then obtain first rest where ep: "episode = first # rest" by (cases episode) auto
      show ?thesis
        using Some Inr v ep Suc.IH[of "acc @ [episode]" "s\<lparr>env := e', reward_filter := f'\<rparr>"]
        by (simp split: option.splits sum.splits prod.splits)
    qed
  qed
qed

lemma update_trajectories_eq:
  "update_trajectories X trs acc p =
     (case update_each X trs p of
        Inl err \<Rightarrow> Inl err
      | Inr (losses, p') \<Rightarrow> Inr (acc @ losses, p'))"
  by (induction trs arbitrary: acc p) (simp_all split: sum.splits prod.splits)

lemma update_each_append:
  "update_each X (xs @ ys) p =
     (case update_each X xs p of
        Inl err \<Rightarrow> Inl err
      | Inr (losses, p') \<Rightarrow>
          (case update_each X ys p' of
             Inl err \<Rightarrow> Inl err
           | Inr (losses', p'') \<Rightarrow> Inr (losses @ losses', p'')))"
  by (induction xs arbitrary: p) (simp_all split: sum.splits prod.splits)

lemma update_episodes_eq:
  "update_episodes X episodes acc p =
     (case update_each X (concat episodes) p of
        Inl err \<Rightarrow> Inl err
      | Inr (losses, p') \<Rightarrow> Inr (acc @ losses, p'))"
  by (induction episodes arbitrary: acc p)
     (simp_all add: update_trajectories_eq update_each_append split: sum.splits prod.splits)

lemma train'_eq: "train' X s = iteration_spec X s"
  by (simp add: train'_def iteration_spec_def collect_episodes_eq update_episodes_eq
        split: option.splits sum.splits prod.splits)

lemma train_remaining_eq: "train_remaining X n s = train_spec X n s"
  by (induction n arbitrary: s)
     (simp_all add: train'_eq split: option.splits sum.splits prod.splits)

lemma train_spec_length:
  "train_spec X n s = Some (Inr (yielded, s')) \<Longrightarrow> length yielded = n"
  by (induction n arbitrary: s yielded)
     (auto split: option.splits sum.splits prod.splits)

lemma update_each_length:
  "update_each X trs p = Inr (losses, p') \<Longrightarrow> length losses = length trs"
  by (induction trs arbitrary: p losses) (auto split: sum.splits prod.splits)

lemma sequential_rollouts_result:
  "sequential_rollouts X n s = Some (Inr (episodes, s')) \<Longrightarrow>
   length episodes = n \<and> policy s' = policy s \<and> config s' = config s \<and>
   (\<forall>episode\<in>set episodes. episode \<noteq> [] \<and>
      (\<forall>tr\<in>set episode. shape (observ tr) = [1, 2] \<and> shape (action tr) = [1, 1]))"
proof (induction n arbitrary: s episodes)
  case 0
  then show ?case by simp
next
  case (Suc n)
  from Suc.prems obtain episode e' f' rest
    where r: "rollouts X (policy s) (config s) (env s) (reward_filter s) = Some (Inr (episode, e', f'))"
      and rest: "sequential_rollouts X n (s\<lparr>env := e', reward_filter := f'\<rparr>) = Some (Inr (rest, s'))"
      and eps: "episodes = episode # rest"
    by (auto split: option.splits sum.splits prod.splits)
  from rollouts_returns[OF r] Suc.IH[OF rest] eps show ?case by simp
qed

lemma train_remaining_next:
  "train_remaining X r s =
     (case train_next X r s of
        None \<Rightarrow> None
      | Some (Inl err) \<Rightarrow> Some (Inl err)
      | Some (Inr (None, s')) \<Rightarrow> Some (Inr ([], s'))
      | Some (Inr (Some (losses, r'), s')) \<Rightarrow>
          (case train_remaining X r' s' of
             None \<Rightarrow> None
           | Some (Inl err) \<Rightarrow> Some (Inl err)
           | Some (Inr (yielded, s'')) \<Rightarrow> Some (Inr (losses # yielded, s''))))"
  by (cases r) (simp_all add: train_next_def split: option.splits sum.splits prod.splits)

section \<open>The claims\<close>

subsection \<open>C1: length and done flags of an episode\<close>

text \<open>
  Claim C1. When the environment, driven by the policy, reports done on the \<open>K\<close>-th step
  and not before, \<open>rollouts\<close> returns: the episode has exactly \<open>K\<close> entries, done is true
  on the last and false on every earlier one, and the entries are in step order (the
  first starts from the batched reset observation, each later one from the observation
  the one before ended in).
\<close>

theorem rollouts_length_and_done:
  assumes "terminates_after X p e K"
  shows "\<exists>ts e1 f1. rollouts X p cfg e f = Some (Inr (ts, e1, f1)) \<and> length ts = K
           \<and> (\<forall>i<K. done (ts ! i) = (Suc i = K))
           \<and> observ (ts ! 0) = newaxis (fst (env_reset X e))
           \<and> (\<forall>i. Suc i < K \<longrightarrow> observ (ts ! Suc i) = next_observ (ts ! i))"
proof -
  from rollouts_terminates[OF assms, of cfg f] obtain ts e1 f1
    where r: "rollouts X p cfg e f = Some (Inr (ts, e1, f1))" and len: "length ts = K"
    by blast
  from rollouts_returns[OF r] have inv: "ts \<noteq> []" "done (last ts)"
      "\<forall>x\<in>set (butlast ts). \<not> done x" "linked (newaxis (fst (env_reset X e))) ts"
    by simp_all
  have flags: "\<forall>i<K. done (ts ! i) = (Suc i = K)"
    using done_flags_nth[OF inv(1,2,3)] len by simp
  have first: "observ (ts ! 0) = newaxis (fst (env_reset X e))"
    using linked_nth[OF inv(4), of 0] inv(1) by simp
  have chain: "\<forall>i. Suc i < K \<longrightarrow> observ (ts ! Suc i) = next_observ (ts ! i)"
    using linked_nth[OF inv(4)] len by simp
  from r len flags first chain show ?thesis by blast
qed

theorem rollouts_length_and_done_witness:
  "terminates_after (stub_externals 3 identity_filter stub_session) zero_policy 0 3 \<and>
   (\<exists>ts e1 f1. rollouts (stub_externals 3 identity_filter stub_session) zero_policy
        scenario_config 0 () = Some (Inr (ts, e1, f1)) \<and> length ts = 3
      \<and> (\<forall>i<3. done (ts ! i) = (Suc i = 3)))"
proof -
  have h: "terminates_after (stub_externals 3 identity_filter stub_session) zero_policy 0 3"
    by (rule stub_terminates) simp
  from rollouts_length_and_done[OF h, of scenario_config "()"] h show ?thesis by blast
qed

subsection \<open>C2: the raw return is the running sum of the stored rewards\<close>

text \<open>
  Claim C2. In every episode that \<open>rollouts\<close> returns, the first entry's \<open>raw_return\<close> is its
  stored (filtered) reward, and every later entry's \<open>raw_return\<close> is the one before plus
  its stored reward.
\<close>

theorem raw_return_recurrence:
  assumes "rollouts X p cfg e f = Some (Inr (ts, e1, f1))"
  shows "ts \<noteq> [] \<and> raw_return (ts ! 0) = reward (ts ! 0)
           \<and> (\<forall>t. 0 < t \<and> t < length ts \<longrightarrow>
                 raw_return (ts ! t) = raw_return (ts ! (t - 1)) + reward (ts ! t))"
proof -
  from rollouts_returns[OF assms]
  have ne: "ts \<noteq> []" and acc: "accumulated (discount_factor cfg) 0 0 0 ts" by simp_all
  from accumulated_raw[OF acc, of 0] ne have "raw_return (ts ! 0) = reward (ts ! 0)" by simp
  moreover have "\<forall>t. 0 < t \<and> t < length ts \<longrightarrow>
                 raw_return (ts ! t) = raw_return (ts ! (t - 1)) + reward (ts ! t)"
    using accumulated_raw[OF acc] by simp
  ultimately show ?thesis using ne by blast
qed

theorem raw_return_recurrence_witness:
  "\<exists>ts e1 f1. rollouts (stub_externals 3 identity_filter stub_session) zero_policy
        scenario_config 0 () = Some (Inr (ts, e1, f1))
     \<and> ts \<noteq> [] \<and> raw_return (ts ! 0) = reward (ts ! 0)
     \<and> (\<forall>t. 0 < t \<and> t < length ts \<longrightarrow>
           raw_return (ts ! t) = raw_return (ts ! (t - 1)) + reward (ts ! t))"
proof -
  have "terminates_after (stub_externals 3 identity_filter stub_session) zero_policy 0 3"
    by (rule stub_terminates) simp
  from rollouts_terminates[OF this, of scenario_config "()"] obtain ts e1 f1
    where r: "rollouts (stub_externals 3 identity_filter stub_session) zero_policy
        scenario_config 0 () = Some (Inr (ts, e1, f1))" by blast
  from raw_return_recurrence[OF r] r show ?thesis by blast
qed

subsection \<open>C3: without discounting the two returns agree\<close>

text \<open>
  Claim C3. With \<open>discount_factor = 1\<close>, the discounted return equals the raw return at
  every step of a returned episode (in exact arithmetic).
\<close>

theorem undiscounted_return_is_raw_return:
  assumes "rollouts X p cfg e f = Some (Inr (ts, e1, f1))" and "discount_factor cfg = 1"
  shows "\<forall>t<length ts. return' (ts ! t) = raw_return (ts ! t)"
proof -
  from rollouts_returns[OF assms(1)] assms(2) have "accumulated 1 0 0 0 ts" by simp
  then show ?thesis using accumulated_undiscounted by (metis nth_mem)
qed

theorem undiscounted_return_is_raw_return_witness:
  "discount_factor (scenario_config\<lparr>discount_factor := 1\<rparr>) = 1 \<and>
   (\<exists>ts e1 f1. rollouts (stub_externals 3 identity_filter stub_session) zero_policy
        (scenario_config\<lparr>discount_factor := 1\<rparr>) 0 () = Some (Inr (ts, e1, f1))
     \<and> (\<forall>t<length ts. return' (ts ! t) = raw_return (ts ! t)))"
proof -
  have d: "discount_factor (scenario_config\<lparr>discount_factor := 1\<rparr>) = 1" by simp
  have "terminates_after (stub_externals 3 identity_filter stub_session) zero_policy 0 3"
    by (rule stub_terminates) simp
  from rollouts_terminates[OF this, of "scenario_config\<lparr>discount_factor := 1\<rparr>" "()"]
  obtain ts e1 f1
    where r: "rollouts (stub_externals 3 identity_filter stub_session) zero_policy
        (scenario_config\<lparr>discount_factor := 1\<rparr>) 0 () = Some (Inr (ts, e1, f1))" by blast
  from undiscounted_return_is_raw_return[OF r d] r d show ?thesis by blast
qed

subsection \<open>C4: the concrete scenario\<close>

text \<open>
  Claim C4, as amended. On the stub environment (reward 1 at every step, done on the
  third) with \<open>discount_factor = 0.995\<close>, \<open>rollouts\<close> returns three entries whose stored
  rewards are the outputs \<open>r1\<close>, \<open>r2\<close>, \<open>r3\<close> of the reward filter on the three raw
  rewards, whose \<open>raw_return\<close> fields are the running sums of those outputs, and whose
  last discounted return is \<open>r1 + 0.995 r2 + 0.995\<^sup>2 r3\<close>.
\<close>

theorem scenario_returns:
  assumes "fc f 1 = (r1, f1)" "fc f1 1 = (r2, f2)" "fc f2 1 = (r3, f3)"
  shows "\<exists>ts. rollouts (stub_externals 3 fc tr) p scenario_config e f = Some (Inr (ts, 3, f3))
           \<and> length ts = 3 \<and> map done ts = [False, False, True]
           \<and> map reward ts = [r1, r2, r3]
           \<and> map raw_return ts = [r1, r1 + r2, r1 + r2 + r3]
           \<and> return' (ts ! 2) = r1 + r2 * (995 / 1000) + r3 * (995 / 1000) ^ 2"
proof -
  have d: "discount_factor scenario_config = 995 / 1000"
    by (simp add: scenario_config_def)
  from stub_rollouts[where fc = fc and tr = tr and p = p and cfg = scenario_config and e = e, OF assms]
  show ?thesis
    unfolding d by auto
qed

text \<open>
  With a filter that returns every reward unchanged, these are \<open>[1, 2, 3]\<close> and
  \<open>1 + 0.995 + 0.995\<^sup>2\<close>.
\<close>

theorem scenario_returns_witness:
  "\<exists>ts. rollouts (stub_externals 3 identity_filter stub_session) zero_policy scenario_config 0 ()
          = Some (Inr (ts, 3, ()))
       \<and> length ts = 3 \<and> map raw_return ts = [1, 2, 3]
       \<and> return' (ts ! 2) = 1 + 995 / 1000 + (995 / 1000) ^ 2"
proof -
  have i: "identity_filter () 1 = (1, ())" by (simp add: identity_filter_def)
  from scenario_returns[where fc = identity_filter and tr = stub_session and p = zero_policy
      and e = 0, OF i i i]
  show ?thesis by auto
qed

text \<open>
  With the normalizing filter of the specification the raw returns are not
  \<open>[1, 2, 3]\<close>: the first reward is stored as 1, the next two are centred to 0.
\<close>

theorem scenario_normalized_counterexample:
  "map raw_return (fst (projr (the (rollouts
      (stub_externals 3 (normalize (1 / 10 ^ 8) 5) stub_session) zero_policy scenario_config 0
      initial_filter)))) = [1, 1, 1]"
proof -
  from stub_rollouts[where fc = "normalize (1 / 10 ^ 8) 5" and tr = stub_session
      and p = zero_policy and cfg = scenario_config and e = 0, OF normalize_scenario]
  show ?thesis by auto
qed

subsection \<open>C5: actions are clipped\<close>

text \<open>
  Claim C5, as amended. On every observation of shape \<open>(1, 2)\<close>, \<open>compute_action\<close>
  returns an action of shape \<open>(1,)\<close> whose component is NaN or lies in \<open>[-1, 1]\<close>; on
  every other shape, a batch \<open>(N, 2)\<close> with \<open>N\<close> other than one included, it raises by
  its assertion.
\<close>

theorem compute_action_clipped:
  "(shape obs = [1, 2] \<longrightarrow>
      (\<exists>a. compute_action p obs = Inr a \<and> shape a = [1] \<and> length (data a) = 1
         \<and> (\<forall>v\<in>set (data a). v = NaN \<or> (\<exists>r. v = Finite r \<and> - 1 \<le> r \<and> r \<le> 1)))) \<and>
   (shape obs \<noteq> [1, 2] \<longrightarrow> compute_action p obs = Inl AssertionError)"
  using compute_action_ok[of obs p] compute_action_fail[of obs p] by blast

text \<open>
  With every weight and both components of the observation equal to 1, the network's
  output before clipping is 20000 and the action is 1; a batch of two is refused.
\<close>

theorem compute_action_clipped_witness:
  "shape \<lparr>shape = [1, 2], data = [Finite 1, Finite 1]\<rparr> = [1, 2] \<and>
   compute_action (uniform_policy (Finite 1) (Finite 1) (Finite 1))
     \<lparr>shape = [1, 2], data = [Finite 1, Finite 1]\<rparr> = Inr \<lparr>shape = [1], data = [Finite 1]\<rparr> \<and>
   (\<exists>a. compute_action (uniform_policy (Finite 1) (Finite 1) (Finite 1))
        \<lparr>shape = [1, 2], data = [Finite 1, Finite 1]\<rparr> = Inr a \<and> shape a = [1]
      \<and> length (data a) = 1
      \<and> (\<forall>v\<in>set (data a). v = NaN \<or> (\<exists>r. v = Finite r \<and> - 1 \<le> r \<and> r \<le> 1))) \<and>
   shape \<lparr>shape = [2, 2], data = [Finite 1, Finite 1, Finite 1, Finite 1]\<rparr> \<noteq> [1, 2] \<and>
   compute_action (uniform_policy (Finite 1) (Finite 1) (Finite 1))
     \<lparr>shape = [2, 2], data = [Finite 1, Finite 1, Finite 1, Finite 1]\<rparr> = Inl AssertionError"
  using compute_action_clipped[of "\<lparr>shape = [1, 2], data = [Finite 1, Finite 1]\<rparr>"
      "uniform_policy (Finite 1) (Finite 1) (Finite 1)"]
    compute_action_clipped[of "\<lparr>shape = [2, 2], data = [Finite 1, Finite 1, Finite 1, Finite 1]\<rparr>"
      "uniform_policy (Finite 1) (Finite 1) (Finite 1)"]
    clip_example
  by simp

text \<open>
  The component is not always in \<open>[-1, 1]\<close>. With first-layer weights and observation
  components \<open>2 ^ 100\<close>, all finite, the first layer overflows to infinity, the
  second layer's zero weights turn that into NaN, and the clip leaves NaN as it is.
\<close>

theorem compute_action_overflow_counterexample:
  "compute_action (uniform_policy (Finite (2 ^ 100)) (Finite 0) (Finite 1))
     \<lparr>shape = [1, 2], data = [Finite (2 ^ 100), Finite (2 ^ 100)]\<rparr>
   = Inr \<lparr>shape = [1], data = [NaN]\<rparr>"
proof -
  have p: "to_float32 (2 ^ 100 * 2 ^ 100) = PosInf"
    by (rule to_float32_overflow) simp
  show ?thesis
    by (subst compute_action_uniform[where a = "Finite (2 ^ 100)"])
       (simp_all only: p fsum_PosInf fsum_NaN fmul.simps fminimum.simps fmaximum.simps
          ndarray.simps zero_less_numeral if_True refl list.inject)
qed

subsection \<open>C6: the shape check\<close>

text \<open>
  Claim C6, as amended. \<open>compute_action\<close> raises, by its assertion, exactly when the
  shape of the observation is not \<open>(1, 2)\<close>, and returns an action on every observation
  of shape \<open>(1, 2)\<close>.
\<close>

theorem compute_action_shape_check:
  "(shape obs \<noteq> [1, 2] \<longrightarrow> compute_action p obs = Inl AssertionError) \<and>
   (shape obs = [1, 2] \<longrightarrow> (\<exists>a. compute_action p obs = Inr a))"
  using compute_action_ok[of obs p] compute_action_fail[of obs p] by blast

theorem compute_action_shape_check_witness:
  "shape \<lparr>shape = [2, 2], data = [Finite 0, Finite 0, Finite 0, Finite 0]\<rparr> \<noteq> [1, 2] \<and>
   compute_action zero_policy \<lparr>shape = [2, 2], data = [Finite 0, Finite 0, Finite 0, Finite 0]\<rparr> = Inl AssertionError \<and>
   shape (newaxis stub_observation) = [1, 2] \<and>
   (\<exists>a. compute_action zero_policy (newaxis stub_observation) = Inr a)"
  using compute_action_shape_check[of "\<lparr>shape = [2, 2], data = [Finite 0, Finite 0, Finite 0, Finite 0]\<rparr>" zero_policy]
    compute_action_shape_check[of "newaxis stub_observation" zero_policy] stub_obs_shape
  by simp

text \<open>
  A batch of two observations has a shape of the form \<open>(N, 2)\<close> and is refused.
\<close>

theorem compute_action_batch_counterexample:
  "compute_action zero_policy \<lparr>shape = [2, 2], data = [Finite 0, Finite 0, Finite 0, Finite 0]\<rparr> = Inl AssertionError"
  by (simp add: compute_action_def)

subsection \<open>C8: the training iterations\<close>

text \<open>
  Claim C8. Consuming the generator \<open>train(num_iters)\<close> computes what the
  specification's wording describes, failing or diverging exactly when that does; when
  it returns and \<open>num_iters\<close> is not negative, it has yielded exactly \<open>num_iters\<close> loss
  lists. Each iteration that returns has first collected \<open>num_episodes\<close> rollouts one
  after the other and then made one update per trajectory of the collected episodes,
  in order, each fed an observation of shape \<open>(1, 2)\<close> and an action of shape \<open>(1, 1)\<close>
  (a batch of size one); its losses are those of these updates, in order. The
  generator is lazy: consuming it is a \<open>next\<close> followed by consuming the rest.
\<close>

theorem train_iterations:
  "train X num_iters s = train_spec X (nat num_iters) s \<and>
   (0 \<le> num_iters \<and> train X num_iters s = Some (Inr (yielded, s')) \<longrightarrow>
      int (length yielded) = num_iters) \<and>
   (train' X s = Some (Inr (losses, s1)) \<longrightarrow>
      (\<exists>episodes sc.
         sequential_rollouts X (nat (num_episodes (config s))) s = Some (Inr (episodes, sc)) \<and>
         length episodes = nat (num_episodes (config s)) \<and>
         update_each X (concat episodes) (policy s) = Inr (losses, policy s1) \<and>
         length losses = length (concat episodes) \<and>
         (\<forall>tr\<in>set (concat episodes). shape (observ tr) = [1, 2] \<and> shape (action tr) = [1, 1]))) \<and>
   train X (int r) s =
     (case train_next X r s of
        None \<Rightarrow> None
      | Some (Inl err) \<Rightarrow> Some (Inl err)
      | Some (Inr (None, s2)) \<Rightarrow> Some (Inr ([], s2))
      | Some (Inr (Some (first, r'), s2)) \<Rightarrow>
          (case train X (int r') s2 of
             None \<Rightarrow> None
           | Some (Inl err) \<Rightarrow> Some (Inl err)
           | Some (Inr (later, s3)) \<Rightarrow> Some (Inr (first # later, s3))))"
proof (intro conjI impI)
  have t: "train X (int n) s' = train_remaining X n s'" for n s'
    by (simp add: train_def)
  show "train X (int r) s =
     (case train_next X r s of
        None \<Rightarrow> None
      | Some (Inl err) \<Rightarrow> Some (Inl err)
      | Some (Inr (None, s2)) \<Rightarrow> Some (Inr ([], s2))
      | Some (Inr (Some (first, r'), s2)) \<Rightarrow>
          (case train X (int r') s2 of
             None \<Rightarrow> None
           | Some (Inl err) \<Rightarrow> Some (Inl err)
           | Some (Inr (later, s3)) \<Rightarrow> Some (Inr (first # later, s3))))"
    unfolding t by (rule train_remaining_next)
next
  show eq: "train X num_iters s = train_spec X (nat num_iters) s"
    by (simp add: train_def train_remaining_eq)
  {
    assume "0 \<le> num_iters \<and> train X num_iters s = Some (Inr (yielded, s'))"
    with eq train_spec_length[of X "nat num_iters" s yielded s']
    show "int (length yielded) = num_iters" by simp
  }
  {
    assume "train' X s = Some (Inr (losses, s1))"
    then have "iteration_spec X s = Some (Inr (losses, s1))" by (simp add: train'_eq)
    then obtain episodes sc p'
      where sr: "sequential_rollouts X (nat (num_episodes (config s))) s = Some (Inr (episodes, sc))"
        and up: "update_each X (concat episodes) (policy sc) = Inr (losses, p')"
        and s1: "s1 = sc\<lparr>policy := p'\<rparr>"
      by (auto simp add: iteration_spec_def split: option.splits sum.splits prod.splits)
    from sequential_rollouts_result[OF sr] update_each_length[OF up] sr up s1
    show "\<exists>episodes sc.
         sequential_rollouts X (nat (num_episodes (config s))) s = Some (Inr (episodes, sc)) \<and>
         length episodes = nat (num_episodes (config s)) \<and>
         update_each X (concat episodes) (policy s) = Inr (losses, policy s1) \<and>
         length losses = length (concat episodes) \<and>
         (\<forall>tr\<in>set (concat episodes). shape (observ tr) = [1, 2] \<and> shape (action tr) = [1, 1])"
      by (intro exI[of _ episodes] exI[of _ sc]) auto
  }
qed

theorem train_iterations_witness:
  "\<exists>yielded s' losses s1.
     train (stub_externals 3 identity_filter stub_session) 2
       \<lparr>config = scenario_config, env = 0, policy = zero_policy, reward_filter = ()\<rparr>
       = Some (Inr (yielded, s')) \<and> int (length yielded) = 2 \<and>
     train' (stub_externals 3 identity_filter stub_session)
       \<lparr>config = scenario_config, env = 0, policy = zero_policy, reward_filter = ()\<rparr>
       = Some (Inr (losses, s1)) \<and> length losses = 6"
proof -
  let ?X = "stub_externals 3 identity_filter stub_session"
  let ?s = "\<lparr>config = scenario_config, env = 0::nat, policy = zero_policy, reward_filter = ()\<rparr>"
  have i: "identity_filter () 1 = (1, ())" by (simp add: identity_filter_def)
  from stub_rollouts[where fc = identity_filter and tr = stub_session and p = zero_policy
      and cfg = scenario_config and e = 0, OF i i i]
  obtain episode where r0: "rollouts ?X zero_policy scenario_config 0 () = Some (Inr (episode, 3, ()))"
    and len: "length episode = 3" by auto
  have r: "rollouts ?X zero_policy scenario_config e () = Some (Inr (episode, 3, ()))" for e
    using r0 by (simp add: rollouts_def stub_externals_def stub_reset_def)
  have n: "nat (num_episodes scenario_config) = Suc (Suc 0)"
    by (simp add: scenario_config_def)
  let ?st = "\<lambda>e. \<lparr>config = scenario_config, env = e::nat, policy = zero_policy,
      reward_filter = ()\<rparr>"
  have sr: "sequential_rollouts ?X (Suc (Suc 0)) (?st e)
      = Some (Inr ([episode, episode], ?st 3))" for e
    by (simp add: r)
  have up: "update_each ?X trs zero_policy
      = Inr (replicate (length trs) \<lparr>shape = [1, 1], data = [Finite 0]\<rparr>, zero_policy)" for trs
    by (induction trs) (simp_all add: stub_externals_def stub_session_def)
  have it: "train' ?X (?st e)
      = Some (Inr (replicate 6 \<lparr>shape = [1, 1], data = [Finite 0]\<rparr>, ?st 3))" for e
    by (simp add: train'_eq iteration_spec_def n up len del: sequential_rollouts.simps)
       (simp add: sr up len del: sequential_rollouts.simps)
  have t1: "train' ?X ?s = Some (Inr (replicate 6 \<lparr>shape = [1, 1], data = [Finite 0]\<rparr>, ?st 3))"
    using it[of 0] by simp
  have t2: "train ?X 2 ?s = Some (Inr ([replicate 6 \<lparr>shape = [1, 1], data = [Finite 0]\<rparr>,
      replicate 6 \<lparr>shape = [1, 1], data = [Finite 0]\<rparr>], ?st 3))"
    using it[of 0] it[of 3] by (simp add: train_def numeral_2_eq_2)
  let ?L = "replicate 6 \<lparr>shape = [1, 1], data = [Finite 0]\<rparr>"
  from train_iterations[where X = ?X and num_iters = 2 and s = ?s and yielded = "[?L, ?L]"
      and s' = "?st 3" and losses = ?L and ?s1.0 = "?st 3"] t1 t2
  have "int (length [?L, ?L]) = 2" and "length ?L = 6" by simp_all
  with t1 t2 show ?thesis
    by (intro exI[of _ "[?L, ?L]"] exI[of _ "?st 3"] exI[of _ ?L]) simp
qed

subsection \<open>C9: zero iterations\<close>

text \<open>
  Claim C9. With \<open>num_iters = 0\<close> the generator yields nothing and stops at the first
  \<open>next\<close>, and the state of the environment, the policy's variables and the filter's
  statistics are what they were. This holds for every environment, also one that
  counts its calls in its state: no call of \<open>reset\<close> or \<open>step\<close> is made.
\<close>

theorem train_zero_iterations:
  "train X 0 s = Some (Inr ([], s)) \<and> train_next X (nat 0) s = Some (Inr (None, s))"
  by (simp add: train_def train_next_def)

subsection \<open>C10: an episode is never empty\<close>

text \<open>
  Claim C10. Every episode that \<open>rollouts\<close> returns has at least one entry; when the
  environment reports done on the very first step, \<open>rollouts\<close> returns exactly one.
\<close>

theorem rollouts_nonempty:
  "(rollouts X p cfg e f = Some (Inr (ts, e1, f1)) \<longrightarrow> 1 \<le> length ts) \<and>
   (terminates_after X p e 1 \<longrightarrow>
      (\<exists>ts' e' f'. rollouts X p cfg e f = Some (Inr (ts', e', f')) \<and> length ts' = 1))"
proof (intro conjI impI)
  assume "rollouts X p cfg e f = Some (Inr (ts, e1, f1))"
  from rollouts_returns[OF this] show "1 \<le> length ts"
    by (cases ts) simp_all
next
  assume "terminates_after X p e 1"
  from rollouts_terminates[OF this] 
  show "\<exists>ts' e' f'. rollouts X p cfg e f = Some (Inr (ts', e', f')) \<and> length ts' = 1" by blast
qed

theorem rollouts_nonempty_witness:
  "terminates_after (stub_externals 1 identity_filter stub_session) zero_policy 0 1 \<and>
   (\<exists>ts e1 f1. rollouts (stub_externals 1 identity_filter stub_session) zero_policy
        scenario_config 0 () = Some (Inr (ts, e1, f1)) \<and> 1 \<le> length ts \<and> length ts = 1)"
proof -
  have h: "terminates_after (stub_externals 1 identity_filter stub_session) zero_policy 0 1"
    by (rule stub_terminates) simp
  from rollouts_nonempty[of "stub_externals 1 identity_filter stub_session" zero_policy
      scenario_config 0 "()"] h
  obtain ts e1 f1 where r: "rollouts (stub_externals 1 identity_filter stub_session) zero_policy
        scenario_config 0 () = Some (Inr (ts, e1, f1))" and l: "length ts = 1" by blast
  from rollouts_nonempty[of "stub_externals 1 identity_filter stub_session" zero_policy
      scenario_config 0 "()" ts e1 f1] r have "1 \<le> length ts" by blast
  with h r l show ?thesis by blast
qed

end
